theory Spec2Isabelle
  imports Main "HOL-Library.Multiset"
begin

section \<open>Segment model (app/src/utils/transcript.ts)\<close>

text \<open>
  JavaScript numbers are modelled as \<open>int\<close>: timestamps, slide numbers and thresholds
  are integers in every caller, and integer arithmetic on doubles is exact below
  \<open>2^53\<close>. Strings are \<open>string\<close>.
\<close>

record SlideTransition =
  slideIndex :: int
  timestamp :: int

record TranscriptSegment =
  "text" :: string
  timestamp :: int
  slideNumber :: int

subsection \<open>formatTimestamp\<close>










subsection \<open>calculateSpeakingDuration\<close>

text \<open>
  \<open>Math.max (...xs)\<close> and \<open>Math.min (...xs)\<close>: a left-to-right scan. On an empty
  argument list JavaScript answers minus or plus infinity, written \<open>None\<close> here.
\<close>

definition Math_max :: "int list \<Rightarrow> int option" where
  "Math_max xs = (case xs of [] \<Rightarrow> None | x # rest \<Rightarrow> Some (fold max rest x))"

definition Math_min :: "int list \<Rightarrow> int option" where
  "Math_min xs = (case xs of [] \<Rightarrow> None | x # rest \<Rightarrow> Some (fold min rest x))"

text \<open>
  After the length guard the timestamp list has two elements at least, so the infinite
  case of the scan is not reached; the model answers 0 there.
\<close>

definition calculateSpeakingDuration :: "TranscriptSegment list \<Rightarrow> int" where
  "calculateSpeakingDuration segments =
     (if length segments \<le> 1 then 0
      else let timestamps = map timestamp segments
           in case (Math_min timestamps, Math_max timestamps) of
                (Some minTimestamp, Some maxTimestamp) \<Rightarrow> maxTimestamp - minTimestamp
              | _ \<Rightarrow> 0)"

subsection \<open>mergeConsecutiveSegments\<close>

text \<open>
  The \<open>for\<close> loop, with its two variables \<open>result\<close> and \<open>current\<close> as arguments and the
  segments from index \<open>i\<close> on as the list still to be read. \<open>result.push\<close> appends.
\<close>

fun merge_loop ::
  "int \<Rightarrow> TranscriptSegment list \<Rightarrow> TranscriptSegment \<Rightarrow> TranscriptSegment list
     \<Rightarrow> TranscriptSegment list" where
  "merge_loop thresholdMs result current [] = result @ [current]"
| "merge_loop thresholdMs result current (next # rest) =
     (if slideNumber next = slideNumber current
         \<and> timestamp next - timestamp current \<le> thresholdMs
      then merge_loop thresholdMs result
             (current\<lparr>text := text current @ '' '' @ text next\<rparr>) rest
      else merge_loop thresholdMs (result @ [current]) next rest)"

definition mergeConsecutiveSegments ::
  "TranscriptSegment list \<Rightarrow> int \<Rightarrow> TranscriptSegment list" where
  "mergeConsecutiveSegments segments thresholdMs =
     (case segments of [] \<Rightarrow> [] | first # rest \<Rightarrow> merge_loop thresholdMs [] first rest)"

text \<open>
  The same walk written without the \<open>result\<close> variable: a flushed accumulator is put in
  front of what the rest of the walk yields. Used to reason about the loop.
\<close>

fun merge_run ::
  "int \<Rightarrow> TranscriptSegment \<Rightarrow> TranscriptSegment list \<Rightarrow> TranscriptSegment list" where
  "merge_run thresholdMs current [] = [current]"
| "merge_run thresholdMs current (next # rest) =
     (if slideNumber next = slideNumber current
         \<and> timestamp next - timestamp current \<le> thresholdMs
      then merge_run thresholdMs (current\<lparr>text := text current @ '' '' @ text next\<rparr>) rest
      else current # merge_run thresholdMs next rest)"

text \<open>\<open>Array.prototype.join\<close> on strings, as \<open>getTranscriptText\<close> of the store uses it.\<close>

fun join :: "string \<Rightarrow> string list \<Rightarrow> string" where
  "join sep [] = []"
| "join sep [x] = x"
| "join sep (x # y # ys) = x @ sep @ join sep (y # ys)"

section \<open>Session store (stores/session.ts)\<close>

text \<open>
  The declarations of \<open>Slide\<close> and \<open>File\<close> are not part of the store; they are type
  parameters. \<open>null\<close> is \<open>None\<close>. The slide index is an integer.
\<close>

record ('slide, 'file) SessionState =
  slides :: "'slide list"
  currentSlideIndex :: int
  isLoading :: bool
  error :: "string option"
  pdfFile :: "'file option"
  transcript :: "TranscriptSegment list"
  isRecording :: bool













definition getTranscriptText :: "('slide, 'file) SessionState \<Rightarrow> string" where
  "getTranscriptText st = join '' '' (map text (transcript st))"





section \<open>Slide transition tracker (hooks/useSlideTransitionTracker.ts)\<close>

text \<open>
  The state of the hook: its three \<open>useState\<close> cells and the \<open>useRef\<close> cell. The
  observed \<open>currentSlideIndex\<close> of the store and the reading of \<open>Date.now ()\<close> are
  arguments.
\<close>

record SlideTracker =
  transitions :: "SlideTransition list"
  sessionStartTime :: "int option"
  isTracking :: bool
  previousSlideIndexRef :: "int option"

definition useSlideTransitionTracker_init :: SlideTracker where
  "useSlideTransitionTracker_init =
     \<lparr>transitions = [], sessionStartTime = None, isTracking = False,
      previousSlideIndexRef = None\<rparr>"

definition startTracking :: "int \<Rightarrow> int \<Rightarrow> SlideTracker \<Rightarrow> SlideTracker" where
  "startTracking observed now st =
     st\<lparr>sessionStartTime := Some now, isTracking := True,
        transitions := [\<lparr>slideIndex = observed, timestamp = now\<rparr>],
        previousSlideIndexRef := Some observed\<rparr>"

definition stopTracking :: "SlideTracker \<Rightarrow> SlideTracker" where
  "stopTracking st = st\<lparr>isTracking := False\<rparr>"

definition reset :: "SlideTracker \<Rightarrow> SlideTracker" where
  "reset st =
     st\<lparr>transitions := [], sessionStartTime := None, isTracking := False,
        previousSlideIndexRef := None\<rparr>"

text \<open>The transition-detection effect, run with the index the render observed.\<close>

definition detectTransition :: "int \<Rightarrow> int \<Rightarrow> SlideTracker \<Rightarrow> SlideTracker" where
  "detectTransition observed now st =
     (if \<not> isTracking st then st
      else let st' = (case previousSlideIndexRef st of
                        None \<Rightarrow> st
                      | Some prevIndex \<Rightarrow>
                          if prevIndex \<noteq> observed
                          then st\<lparr>transitions :=
                                    transitions st @ [\<lparr>slideIndex = observed, timestamp = now\<rparr>]\<rparr>
                          else st)
           in st'\<lparr>previousSlideIndexRef := Some observed\<rparr>)"

text \<open>The states the hook can be in: what its operations make of the initial state.\<close>

inductive tracker_reachable :: "SlideTracker \<Rightarrow> bool" where
  reach_init: "tracker_reachable useSlideTransitionTracker_init"
| reach_start: "tracker_reachable st \<Longrightarrow> tracker_reachable (startTracking observed now st)"
| reach_stop: "tracker_reachable st \<Longrightarrow> tracker_reachable (stopTracking st)"
| reach_reset: "tracker_reachable st \<Longrightarrow> tracker_reachable (reset st)"
| reach_detect: "tracker_reachable st \<Longrightarrow> tracker_reachable (detectTransition observed now st)"

section \<open>Recognition session (hooks/useSpeechToText.ts)\<close>

text \<open>
  A recognition result carries its finality flag and the transcript of its first
  alternative (\<open>result[0].transcript\<close>); an event carries \<open>resultIndex\<close> and the results.
\<close>

record SpeechRecognitionResult =
  isFinal :: bool
  first_transcript :: string

record SpeechRecognitionEvent =
  resultIndex :: nat
  results :: "SpeechRecognitionResult list"

definition getErrorMessage :: "string \<Rightarrow> string" where
  "getErrorMessage code =
     (if code = ''no-speech'' then ''No speech detected. Please try again.''
      else if code = ''audio-capture''
        then ''No microphone detected. Please check your microphone.''
      else if code = ''not-allowed''
        then ''Microphone permission denied. Please allow microphone access.''
      else if code = ''network'' then ''Network error. Please check your connection.''
      else ''Speech recognition error: '' @ code)"

text \<open>
  The state of the hook: the four \<open>useState\<close> cells and the two flag refs. The
  recognizer instance exists exactly when the capability is supported. What the hook
  does to the outside is recorded too: the number of \<open>start ()\<close> and \<open>stop ()\<close> requests
  made to the recognizer (a request that throws is caught, and counts), and the
  arguments of every call of the \<open>onResult\<close> option, which may be absent.
\<close>

record SpeechToText =
  isSupported :: bool
  onResultProvided :: bool
  isListening :: bool
  transcript :: string
  interimTranscript :: string
  error :: "string option"
  shouldRestartRef :: bool
  isStoppingRef :: bool
  startRequests :: nat
  stopRequests :: nat
  onResultCalls :: "(string \<times> bool) list"

definition useSpeechToText_init :: "bool \<Rightarrow> bool \<Rightarrow> SpeechToText" where
  "useSpeechToText_init supported callback =
     \<lparr>isSupported = supported, onResultProvided = callback, isListening = False,
      transcript = [], interimTranscript = [],
      error = (if supported then None
               else Some ''Speech recognition is not supported in this browser. Please use Chrome or Edge.''),
      shouldRestartRef = False, isStoppingRef = False,
      startRequests = 0, stopRequests = 0, onResultCalls = []\<rparr>"

definition onstart :: "SpeechToText \<Rightarrow> SpeechToText" where
  "onstart s = s\<lparr>isListening := True, error := None\<rparr>"

text \<open>The loop of \<open>onresult\<close> over the results from \<open>resultIndex\<close> on.\<close>

fun collect_results ::
  "SpeechRecognitionResult list \<Rightarrow> string \<times> string \<Rightarrow> string \<times> string" where
  "collect_results [] acc = acc"
| "collect_results (r # rs) (finalTranscript, interim) =
     (if isFinal r then collect_results rs (finalTranscript @ first_transcript r, interim)
      else collect_results rs (finalTranscript, interim @ first_transcript r))"

definition call_onResult :: "string \<Rightarrow> bool \<Rightarrow> SpeechToText \<Rightarrow> SpeechToText" where
  "call_onResult t final s =
     (if onResultProvided s then s\<lparr>onResultCalls := onResultCalls s @ [(t, final)]\<rparr> else s)"

definition onresult :: "SpeechRecognitionEvent \<Rightarrow> SpeechToText \<Rightarrow> SpeechToText" where
  "onresult event s =
     (let (finalTranscript, interim) =
            collect_results (drop (resultIndex event) (results event)) ([], [])
      in if finalTranscript \<noteq> []
         then call_onResult finalTranscript True
                (s\<lparr>transcript := transcript s @ finalTranscript, interimTranscript := []\<rparr>)
         else call_onResult interim False (s\<lparr>interimTranscript := interim\<rparr>))"

definition onerror :: "string \<Rightarrow> SpeechToText \<Rightarrow> SpeechToText" where
  "onerror code s = s\<lparr>error := Some (getErrorMessage code), shouldRestartRef := False\<rparr>"

definition onend :: "SpeechToText \<Rightarrow> SpeechToText" where
  "onend s =
     (let s' = s\<lparr>isListening := False\<rparr>
      in if shouldRestartRef s' \<and> \<not> isStoppingRef s'
         then s'\<lparr>startRequests := startRequests s' + 1\<rparr> else s')"

definition start :: "SpeechToText \<Rightarrow> SpeechToText" where
  "start s =
     (if \<not> isSupported s then s
      else s\<lparr>error := None, shouldRestartRef := True, isStoppingRef := False,
             startRequests := startRequests s + 1\<rparr>)"

definition stop :: "SpeechToText \<Rightarrow> SpeechToText" where
  "stop s =
     (if \<not> isSupported s then s
      else s\<lparr>shouldRestartRef := False, isStoppingRef := True,
             stopRequests := stopRequests s + 1\<rparr>)"

definition resetTranscript :: "SpeechToText \<Rightarrow> SpeechToText" where
  "resetTranscript s = s\<lparr>transcript := [], interimTranscript := [], error := None\<rparr>"

text \<open>
  What can happen to a session: a call of the caller (\<open>start\<close>, \<open>stop\<close>,
  \<open>resetTranscript\<close>) or a callback of the recognizer.
\<close>

datatype SessionEvent =
    Start
  | Stop
  | ResetTranscript
  | OnStart
  | OnResult SpeechRecognitionEvent
  | OnError string
  | OnEnd

fun session_step :: "SessionEvent \<Rightarrow> SpeechToText \<Rightarrow> SpeechToText" where
  "session_step Start s = start s"
| "session_step Stop s = stop s"
| "session_step ResetTranscript s = resetTranscript s"
| "session_step OnStart s = onstart s"
| "session_step (OnResult event) s = onresult event s"
| "session_step (OnError code) s = onerror code s"
| "session_step OnEnd s = onend s"

fun session_run :: "SessionEvent list \<Rightarrow> SpeechToText \<Rightarrow> SpeechToText" where
  "session_run [] s = s"
| "session_run (e # es) s = session_run es (session_step e s)"

fun is_Stop :: "SessionEvent \<Rightarrow> bool" where
  "is_Stop Stop = True"
| "is_Stop _ = False"

fun is_Start :: "SessionEvent \<Rightarrow> bool" where
  "is_Start Start = True"
| "is_Start _ = False"

fun is_OnError :: "SessionEvent \<Rightarrow> bool" where
  "is_OnError (OnError _) = True"
| "is_OnError _ = False"

section \<open>Properties of the segment utilities\<close>

subsection \<open>formatTimestamp\<close>












subsection \<open>mergeConsecutiveSegments\<close>

lemma merge_loop_run:
  "merge_loop th result current rest = result @ merge_run th current rest"
  by (induction rest arbitrary: result current) simp_all

lemma merge_as_run: "mergeConsecutiveSegments (a # rest) th = merge_run th a rest"
  by (simp add: mergeConsecutiveSegments_def merge_loop_run)

lemma merge_run_nonempty: "merge_run th a rest \<noteq> []"
  by (induction th a rest rule: merge_run.induct) simp_all

lemma merge_run_hd:
  "slideNumber (hd (merge_run th a rest)) = slideNumber a
   \<and> timestamp (hd (merge_run th a rest)) = timestamp a"
  by (induction th a rest rule: merge_run.induct) simp_all

lemma merge_run_idem:
  "merge_run th (hd (merge_run th a rest)) (tl (merge_run th a rest)) = merge_run th a rest"
proof (induction th a rest rule: merge_run.induct)
  case (1 th current)
  show ?case by simp
next
  case (2 th current nxt rest)
  show ?case
  proof (cases "slideNumber nxt = slideNumber current
                 \<and> timestamp nxt - timestamp current \<le> th")
    case True
    with 2 show ?thesis by simp
  next
    case False
    obtain b bs where bs: "merge_run th nxt rest = b # bs"
      using merge_run_nonempty [of th nxt rest] by (cases "merge_run th nxt rest") auto
    have hd: "slideNumber b = slideNumber nxt" "timestamp b = timestamp nxt"
      using merge_run_hd [of th nxt rest] bs by simp_all
    have step: "merge_run th current (nxt # rest) = current # b # bs"
      using False bs by auto
    have "merge_run th b bs = b # bs"
      using 2(2) False bs by simp
    moreover have "merge_run th current (b # bs) = current # merge_run th b bs"
      using False hd by auto
    ultimately show ?thesis using step by simp
  qed
qed

lemma join_cons: "ys \<noteq> [] \<Longrightarrow> join sep (x # ys) = x @ sep @ join sep ys"
  by (cases ys) simp_all

lemma join_glue: "join sep ((x @ sep @ y) # zs) = join sep (x # y # zs)"
  by (cases zs) simp_all

lemma join_merge_run:
  "join '' '' (map text (merge_run th a rest)) = join '' '' (map text (a # rest))"
proof (induction th a rest rule: merge_run.induct)
  case (1 th current)
  show ?case by simp
next
  case (2 th current nxt rest)
  show ?case
  proof (cases "slideNumber nxt = slideNumber current
                 \<and> timestamp nxt - timestamp current \<le> th")
    case True
    with 2(1) have "join '' '' (map text (merge_run th current (nxt # rest)))
        = join '' '' ((text current @ '' '' @ text nxt) # map text rest)" by simp
    also have "\<dots> = join '' '' (map text (current # nxt # rest))"
      using join_glue [of "'' ''" "text current" "text nxt" "map text rest"] by simp
    finally show ?thesis .
  next
    case False
    have ne: "map text (merge_run th nxt rest) \<noteq> []" by (simp add: merge_run_nonempty)
    from False have "join '' '' (map text (merge_run th current (nxt # rest)))
        = join '' '' (text current # map text (merge_run th nxt rest))" by auto
    also have "\<dots> = text current @ '' '' @ join '' '' (map text (merge_run th nxt rest))"
      using ne by (rule join_cons)
    also have "\<dots> = text current @ '' '' @ join '' '' (map text (nxt # rest))"
      using 2(2) False by simp
    finally show ?thesis by simp
  qed
qed

text \<open>
  C4. \<open>mergeConsecutiveSegments\<close> walks the input in the given order: empty input
  yields empty output; a single segment is flushed as it is; the next segment merges
  into the accumulator exactly when its slide number equals the accumulator's and its
  timestamp minus the accumulator's is at most the threshold, the merged accumulator
  having the two texts joined by one space and the accumulator's own timestamp and
  slide number; any other segment flushes the accumulator to the output and becomes the
  new accumulator. Merging \<open>Hello\<close> (1000, slide 1) and \<open>world\<close> (2000, slide 1) with
  threshold 3000 yields the single segment \<open>Hello world\<close> (1000, slide 1).
\<close>

theorem mergeConsecutiveSegments_walk:
  "mergeConsecutiveSegments [] th = []
   \<and> mergeConsecutiveSegments [a] th = [a]
   \<and> mergeConsecutiveSegments (a # s # rest) th =
       (if slideNumber s = slideNumber a \<and> timestamp s - timestamp a \<le> th
        then mergeConsecutiveSegments (a\<lparr>text := text a @ '' '' @ text s\<rparr> # rest) th
        else a # mergeConsecutiveSegments (s # rest) th)
   \<and> mergeConsecutiveSegments
        [\<lparr>text = ''Hello'', timestamp = 1000, slideNumber = 1\<rparr>,
         \<lparr>text = ''world'', timestamp = 2000, slideNumber = 1\<rparr>] 3000
       = [\<lparr>text = ''Hello world'', timestamp = 1000, slideNumber = 1\<rparr>]"
  by (simp add: merge_as_run) (simp add: mergeConsecutiveSegments_def)

text \<open>
  C5. \<open>mergeConsecutiveSegments\<close> is idempotent on its own output, for every segment
  list and every threshold.
\<close>

theorem mergeConsecutiveSegments_idempotent:
  "mergeConsecutiveSegments (mergeConsecutiveSegments S th) th = mergeConsecutiveSegments S th"
proof (cases S)
  case Nil
  then show ?thesis by (simp add: mergeConsecutiveSegments_def)
next
  case (Cons a rest)
  obtain b bs where bs: "merge_run th a rest = b # bs"
    using merge_run_nonempty [of th a rest] by (cases "merge_run th a rest") auto
  have "merge_run th b bs = b # bs"
    using merge_run_idem [of th a rest] bs by simp
  with Cons bs show ?thesis by (simp add: merge_as_run)
qed

text \<open>
  C9. \<open>mergeConsecutiveSegments\<close> loses no spoken text: the texts of the output joined
  in order by a single space are the texts of the input joined in order by a single
  space, for every input and every threshold.
\<close>

theorem mergeConsecutiveSegments_keeps_text:
  "join '' '' (map text (mergeConsecutiveSegments S th)) = join '' '' (map text S)"
proof (cases S)
  case Nil
  then show ?thesis by (simp add: mergeConsecutiveSegments_def)
next
  case (Cons a rest)
  then show ?thesis using join_merge_run [of th a rest] by (simp add: merge_as_run)
qed

subsection \<open>calculateSpeakingDuration\<close>

lemma Math_max_Max: "xs \<noteq> [] \<Longrightarrow> Math_max xs = Some (Max (set xs))"
  by (cases xs) (simp_all add: Math_max_def Max.set_eq_fold [symmetric])

lemma Math_min_Min: "xs \<noteq> [] \<Longrightarrow> Math_min xs = Some (Min (set xs))"
  by (cases xs) (simp_all add: Math_min_def Min.set_eq_fold [symmetric])

lemma duration_char:
  "calculateSpeakingDuration S =
     (if length S \<le> 1 then 0 else Max (timestamp ` set S) - Min (timestamp ` set S))"
proof (cases "length S \<le> 1")
  case True
  then show ?thesis by (simp add: calculateSpeakingDuration_def)
next
  case False
  then have "map timestamp S \<noteq> []" by auto
  then show ?thesis using False
    by (simp add: calculateSpeakingDuration_def Math_max_Max Math_min_Min)
qed

lemma duration_perm:
  assumes "mset S = mset S'"
  shows "calculateSpeakingDuration S = calculateSpeakingDuration S'"
proof -
  have "length S = length S'" using assms by (rule mset_eq_length)
  moreover have "set S = set S'" using assms by (rule mset_eq_setD)
  ultimately show ?thesis by (simp add: duration_char)
qed

lemma duration_example:
  assumes "mset (map timestamp S) = {#5000, 1000, 10000#}"
  shows "calculateSpeakingDuration S = 9000"
proof -
  have "size (mset (map timestamp S)) = 3" using assms by simp
  then have len: "length S = 3" by simp
  have "set_mset (mset (map timestamp S)) = {5000, 1000, 10000}" using assms by simp
  then have "timestamp ` set S = {5000, 1000, 10000}" by simp
  with len show ?thesis by (simp add: duration_char)
qed

text \<open>
  C6. \<open>calculateSpeakingDuration\<close> returns 0 for an input of 0 or 1 segments, and for
  every larger input the greatest timestamp minus the least timestamp of the whole list;
  so its result is the same for every permutation of the input, and every arrangement
  of the timestamps 5000, 1000, 10000 yields 9000.
\<close>

theorem calculateSpeakingDuration_span:
  "(length S \<le> 1 \<longrightarrow> calculateSpeakingDuration S = 0)
   \<and> (2 \<le> length S \<longrightarrow>
        calculateSpeakingDuration S = Max (timestamp ` set S) - Min (timestamp ` set S))
   \<and> (mset S = mset S' \<longrightarrow> calculateSpeakingDuration S = calculateSpeakingDuration S')
   \<and> (mset (map timestamp S) = {#5000, 1000, 10000#}
        \<longrightarrow> calculateSpeakingDuration S = 9000)"
proof -
  have "2 \<le> length S \<longrightarrow>
        calculateSpeakingDuration S = Max (timestamp ` set S) - Min (timestamp ` set S)"
    by (simp add: duration_char)
  moreover have "length S \<le> 1 \<longrightarrow> calculateSpeakingDuration S = 0"
    by (simp add: duration_char)
  ultimately show ?thesis
    using duration_perm [of S S'] duration_example [of S] by blast
qed

theorem calculateSpeakingDuration_span_witness:
  "length ([] :: TranscriptSegment list) \<le> 1
   \<and> calculateSpeakingDuration [] = 0
   \<and> 2 \<le> length
        [\<lparr>text = ''Middle'', timestamp = 5000, slideNumber = 1\<rparr>,
         \<lparr>text = ''First'', timestamp = 1000, slideNumber = 1\<rparr>,
         \<lparr>text = ''Last'', timestamp = 10000, slideNumber = 1\<rparr>]
   \<and> mset
        [\<lparr>text = ''Middle'', timestamp = 5000, slideNumber = 1\<rparr>,
         \<lparr>text = ''First'', timestamp = 1000, slideNumber = 1\<rparr>,
         \<lparr>text = ''Last'', timestamp = 10000, slideNumber = 1\<rparr>]
       = mset
        [\<lparr>text = ''First'', timestamp = 1000, slideNumber = 1\<rparr>,
         \<lparr>text = ''Middle'', timestamp = 5000, slideNumber = 1\<rparr>,
         \<lparr>text = ''Last'', timestamp = 10000, slideNumber = 1\<rparr>]
   \<and> calculateSpeakingDuration
        [\<lparr>text = ''Middle'', timestamp = 5000, slideNumber = 1\<rparr>,
         \<lparr>text = ''First'', timestamp = 1000, slideNumber = 1\<rparr>,
         \<lparr>text = ''Last'', timestamp = 10000, slideNumber = 1\<rparr>] = 9000
   \<and> calculateSpeakingDuration
        [\<lparr>text = ''Middle'', timestamp = 5000, slideNumber = 1\<rparr>,
         \<lparr>text = ''First'', timestamp = 1000, slideNumber = 1\<rparr>,
         \<lparr>text = ''Last'', timestamp = 10000, slideNumber = 1\<rparr>]
       = calculateSpeakingDuration
        [\<lparr>text = ''First'', timestamp = 1000, slideNumber = 1\<rparr>,
         \<lparr>text = ''Middle'', timestamp = 5000, slideNumber = 1\<rparr>,
         \<lparr>text = ''Last'', timestamp = 10000, slideNumber = 1\<rparr>]"
  using calculateSpeakingDuration_span [of "[]" "[]"]
    calculateSpeakingDuration_span
      [of "[\<lparr>text = ''Middle'', timestamp = 5000, slideNumber = 1\<rparr>,
            \<lparr>text = ''First'', timestamp = 1000, slideNumber = 1\<rparr>,
            \<lparr>text = ''Last'', timestamp = 10000, slideNumber = 1\<rparr>]"
          "[\<lparr>text = ''First'', timestamp = 1000, slideNumber = 1\<rparr>,
            \<lparr>text = ''Middle'', timestamp = 5000, slideNumber = 1\<rparr>,
            \<lparr>text = ''Last'', timestamp = 10000, slideNumber = 1\<rparr>]"]
  by simp

section \<open>Properties of the session store\<close>










section \<open>Properties of the slide transition tracker\<close>

lemma tracker_armed_has_previous:
  "tracker_reachable st \<Longrightarrow> isTracking st \<Longrightarrow> \<exists>p. previousSlideIndexRef st = Some p"
proof (induction rule: tracker_reachable.induct)
  case reach_init
  then show ?case by (simp add: useSlideTransitionTracker_init_def)
next
  case (reach_start st observed now)
  then show ?case by (simp add: startTracking_def)
next
  case (reach_stop st)
  then show ?case by (simp add: stopTracking_def)
next
  case (reach_reset st)
  then show ?case by (simp add: reset_def)
next
  case (reach_detect st observed now)
  then show ?case by (auto simp add: detectTransition_def Let_def split: if_splits)
qed

lemma detect_armed:
  "isTracking st \<Longrightarrow> previousSlideIndexRef st = Some p \<Longrightarrow>
   transitions (detectTransition observed now st) =
     (if p = observed then transitions st
      else transitions st @ [\<lparr>slideIndex = observed, timestamp = now\<rparr>])"
  by (simp add: detectTransition_def)

lemma detect_disarmed:
  "\<not> isTracking st \<Longrightarrow> detectTransition observed now st = st"
  by (simp add: detectTransition_def)

lemma detect_again:
  "transitions (detectTransition observed now' (detectTransition observed now st))
     = transitions (detectTransition observed now st)"
  by (simp add: detectTransition_def Let_def split: option.splits)

text \<open>
  C7. In every state the tracker can reach: while tracking is armed there is a
  previously observed index, and observing an index that differs from it appends
  exactly one record, with the new index and the current time, whereas observing the
  same index (also observing the new index a second time) appends nothing; while
  tracking is disarmed, observing any index appends no record.
\<close>

theorem detectTransition_appends:
  assumes "tracker_reachable st"
  shows "(isTracking st \<longrightarrow>
            (\<exists>p. previousSlideIndexRef st = Some p)
            \<and> transitions (detectTransition observed now st) =
                (if previousSlideIndexRef st = Some observed then transitions st
                 else transitions st @ [\<lparr>slideIndex = observed, timestamp = now\<rparr>])
            \<and> transitions (detectTransition observed now' (detectTransition observed now st))
                = transitions (detectTransition observed now st))
         \<and> (\<not> isTracking st \<longrightarrow>
              transitions (detectTransition observed now st) = transitions st)"
proof -
  have "isTracking st \<longrightarrow>
          transitions (detectTransition observed now st) =
            (if previousSlideIndexRef st = Some observed then transitions st
             else transitions st @ [\<lparr>slideIndex = observed, timestamp = now\<rparr>])"
    using tracker_armed_has_previous [OF assms] detect_armed [of st _ observed now] by auto
  then show ?thesis
    using tracker_armed_has_previous [OF assms] detect_again [of observed now' now st]
      detect_disarmed [of st observed now]
    by simp
qed

lemma tracker_started_reachable:
  "tracker_reachable (startTracking 0 10 useSlideTransitionTracker_init)"
  by (rule reach_start) (rule reach_init)

lemma tracker_stopped_reachable:
  "tracker_reachable (stopTracking (startTracking 0 10 useSlideTransitionTracker_init))"
  by (rule reach_stop) (rule tracker_started_reachable)

theorem detectTransition_appends_witness:
  "tracker_reachable (startTracking 0 10 useSlideTransitionTracker_init)
   \<and> isTracking (startTracking 0 10 useSlideTransitionTracker_init)
   \<and> transitions (detectTransition 1 40 (startTracking 0 10 useSlideTransitionTracker_init))
     = [\<lparr>slideIndex = 0, timestamp = 10\<rparr>, \<lparr>slideIndex = 1, timestamp = 40\<rparr>]
   \<and> transitions (detectTransition 0 40 (startTracking 0 10 useSlideTransitionTracker_init))
     = [\<lparr>slideIndex = 0, timestamp = 10\<rparr>]
   \<and> tracker_reachable (stopTracking (startTracking 0 10 useSlideTransitionTracker_init))
   \<and> \<not> isTracking (stopTracking (startTracking 0 10 useSlideTransitionTracker_init))
   \<and> transitions (detectTransition 1 40
        (stopTracking (startTracking 0 10 useSlideTransitionTracker_init)))
     = [\<lparr>slideIndex = 0, timestamp = 10\<rparr>]"
  using detectTransition_appends [OF tracker_started_reachable, of 1 40 50]
    detectTransition_appends [OF tracker_started_reachable, of 0 40 50]
    detectTransition_appends [OF tracker_stopped_reachable, of 1 40 50]
    tracker_started_reachable tracker_stopped_reachable
  by (simp add: startTracking_def stopTracking_def useSlideTransitionTracker_init_def)

section \<open>Properties of the recognition session\<close>

subsection \<open>Termination delivery and auto-restart\<close>

lemma keep_restart_step:
  "\<not> is_Stop e \<Longrightarrow> \<not> is_OnError e \<Longrightarrow> shouldRestartRef s \<and> \<not> isStoppingRef s \<Longrightarrow>
   shouldRestartRef (session_step e s) \<and> \<not> isStoppingRef (session_step e s)"
  by (cases e)
     (simp_all add: start_def resetTranscript_def onstart_def onresult_def call_onResult_def
        onend_def Let_def split: prod.splits)

lemma keep_restart_run:
  "\<forall>e \<in> set evs. \<not> is_Stop e \<and> \<not> is_OnError e \<Longrightarrow>
   shouldRestartRef s \<and> \<not> isStoppingRef s \<Longrightarrow>
   shouldRestartRef (session_run evs s) \<and> \<not> isStoppingRef (session_run evs s)"
proof (induction evs arbitrary: s)
  case Nil
  then show ?case by simp
next
  case (Cons e evs)
  from Cons.prems
  have "shouldRestartRef (session_step e s) \<and> \<not> isStoppingRef (session_step e s)"
    by (intro keep_restart_step) simp_all
  with Cons show ?case by simp
qed

lemma no_restart_step:
  "\<not> is_Start e \<Longrightarrow> \<not> shouldRestartRef s \<Longrightarrow> \<not> shouldRestartRef (session_step e s)"
  by (cases e)
     (simp_all add: stop_def resetTranscript_def onstart_def onresult_def call_onResult_def
        onerror_def onend_def Let_def split: prod.splits)

lemma no_restart_run:
  "\<forall>e \<in> set evs. \<not> is_Start e \<Longrightarrow> \<not> shouldRestartRef s \<Longrightarrow>
   \<not> shouldRestartRef (session_run evs s)"
proof (induction evs arbitrary: s)
  case Nil
  then show ?case by simp
next
  case (Cons e evs)
  from Cons.prems have "\<not> shouldRestartRef (session_step e s)"
    by (intro no_restart_step) simp_all
  with Cons show ?case by simp
qed

lemma onend_requests:
  "startRequests (onend s) =
     (if shouldRestartRef s \<and> \<not> isStoppingRef s then startRequests s + 1 else startRequests s)"
  by (simp add: onend_def Let_def)

text \<open>
  C1. When \<open>onend\<close> fires while \<open>shouldRestartRef\<close> is set and the stop was not
  intentional, exactly one \<open>start ()\<close> request is made to the recognizer. That is the
  case whenever the caller has called \<open>start ()\<close> (with the capability present) and
  neither \<open>stop ()\<close> nor an error has come since. When an error was reported and the
  caller has not called \<open>start ()\<close> again since, \<open>onend\<close> requests no restart, because
  \<open>onerror\<close> sets \<open>shouldRestartRef\<close> to false.
\<close>

theorem onend_auto_restart:
  "(shouldRestartRef s \<and> \<not> isStoppingRef s
      \<longrightarrow> startRequests (onend s) = startRequests s + 1)
   \<and> (isSupported s \<and> (\<forall>e \<in> set evs. \<not> is_Stop e \<and> \<not> is_OnError e) \<longrightarrow>
        startRequests (onend (session_run evs (start s)))
          = startRequests (session_run evs (start s)) + 1)
   \<and> ((\<forall>e \<in> set evs. \<not> is_Start e) \<longrightarrow>
        startRequests (onend (session_run evs (onerror code s)))
          = startRequests (session_run evs (onerror code s)))
   \<and> shouldRestartRef (onerror code s) = False
   \<and> startRequests (onend (onerror code s)) = startRequests s"
proof -
  have a: "shouldRestartRef s \<and> \<not> isStoppingRef s
           \<longrightarrow> startRequests (onend s) = startRequests s + 1"
    by (simp add: onend_requests)
  have b: "isSupported s \<and> (\<forall>e \<in> set evs. \<not> is_Stop e \<and> \<not> is_OnError e) \<longrightarrow>
        startRequests (onend (session_run evs (start s)))
          = startRequests (session_run evs (start s)) + 1"
  proof
    assume h: "isSupported s \<and> (\<forall>e \<in> set evs. \<not> is_Stop e \<and> \<not> is_OnError e)"
    then have "shouldRestartRef (start s) \<and> \<not> isStoppingRef (start s)"
      by (simp add: start_def)
    with h have "shouldRestartRef (session_run evs (start s))
                 \<and> \<not> isStoppingRef (session_run evs (start s))"
      by (intro keep_restart_run) simp_all
    then show "startRequests (onend (session_run evs (start s)))
          = startRequests (session_run evs (start s)) + 1"
      by (simp add: onend_requests)
  qed
  have c: "(\<forall>e \<in> set evs. \<not> is_Start e) \<longrightarrow>
        startRequests (onend (session_run evs (onerror code s)))
          = startRequests (session_run evs (onerror code s))"
  proof
    assume h: "\<forall>e \<in> set evs. \<not> is_Start e"
    have "\<not> shouldRestartRef (onerror code s)" by (simp add: onerror_def)
    with h have "\<not> shouldRestartRef (session_run evs (onerror code s))"
      by (rule no_restart_run)
    then show "startRequests (onend (session_run evs (onerror code s)))
          = startRequests (session_run evs (onerror code s))"
      by (simp add: onend_requests)
  qed
  have d: "shouldRestartRef (onerror code s) = False
           \<and> startRequests (onend (onerror code s)) = startRequests s"
    by (simp add: onend_requests onerror_def)
  from a b c d show ?thesis by blast
qed

theorem onend_auto_restart_witness:
  "isSupported (useSpeechToText_init True True)
   \<and> \<not> is_Stop OnStart \<and> \<not> is_OnError OnStart \<and> \<not> is_Start OnStart
   \<and> shouldRestartRef (start (useSpeechToText_init True True))
   \<and> \<not> isStoppingRef (start (useSpeechToText_init True True))
   \<and> startRequests (start (useSpeechToText_init True True)) = 1
   \<and> startRequests (onend (start (useSpeechToText_init True True))) = 2
   \<and> startRequests (onend (session_run [OnStart] (start (useSpeechToText_init True True)))) = 2
   \<and> startRequests (onend (session_run [OnStart]
        (onerror ''no-speech'' (start (useSpeechToText_init True True))))) = 1"
  using
    onend_auto_restart
      [of "start (useSpeechToText_init True True)" "[OnStart]" "''no-speech''"]
    onend_auto_restart [of "useSpeechToText_init True True" "[OnStart]" "''no-speech''"]
  by (simp add: start_def useSpeechToText_init_def onstart_def onerror_def)

subsection \<open>Result delivery\<close>

lemma collect_results_eq:
  "collect_results rs (f, i) =
     (f @ concat (map first_transcript (filter isFinal rs)),
      i @ concat (map first_transcript (filter (\<lambda>r. \<not> isFinal r) rs)))"
  by (induction rs arbitrary: f i) simp_all

text \<open>
  C2 (as amended). For every batch of results delivered to \<open>onresult\<close>: when the
  concatenated final text of the batch is non-empty, it is appended to the accumulated
  transcript, the interim text is cleared, and the result callback (when one is given)
  is called with the text and \<open>isFinal = true\<close>; in every other case the interim text
  is replaced by the concatenated interim text of the batch and the callback (when one
  is given) is called with that text and \<open>isFinal = false\<close>, also when that text is
  empty.
\<close>

theorem onresult_batch:
  "onresult event s =
     (let batch = drop (resultIndex event) (results event);
          finalText = concat (map first_transcript (filter isFinal batch));
          interimText = concat (map first_transcript (filter (\<lambda>r. \<not> isFinal r) batch))
      in if finalText \<noteq> []
         then s\<lparr>transcript := transcript s @ finalText, interimTranscript := [],
                onResultCalls := (if onResultProvided s
                                  then onResultCalls s @ [(finalText, True)]
                                  else onResultCalls s)\<rparr>
         else s\<lparr>interimTranscript := interimText,
                onResultCalls := (if onResultProvided s
                                  then onResultCalls s @ [(interimText, False)]
                                  else onResultCalls s)\<rparr>)"
  by (simp add: onresult_def collect_results_eq call_onResult_def Let_def
        del: concat_eq_Nil_conv)

text \<open>
  C2 as stated fails for a batch with neither final nor interim text: after an interim
  result \<open>hi\<close>, a batch whose only result is final with an empty transcript clears the
  interim text and calls the callback with the empty text and \<open>isFinal = false\<close>.
\<close>

theorem onresult_empty_batch_counterexample:
  "(let s = session_run
              [Start, OnStart,
               OnResult \<lparr>resultIndex = 0,
                         results = [\<lparr>isFinal = False, first_transcript = ''hi''\<rparr>]\<rparr>]
              (useSpeechToText_init True True);
        batch = \<lparr>resultIndex = 0, results = [\<lparr>isFinal = True, first_transcript = ''''\<rparr>]\<rparr>
    in onresult batch s \<noteq> s
       \<and> interimTranscript s = ''hi''
       \<and> interimTranscript (onresult batch s) = ''''
       \<and> onResultCalls (onresult batch s) = onResultCalls s @ [('''', False)])"
  by (simp add: Let_def onresult_def call_onResult_def useSpeechToText_init_def start_def
        onstart_def)

subsection \<open>resetTranscript\<close>

text \<open>
  C8. \<open>resetTranscript\<close> clears the accumulated transcript, the interim text and the
  last error, and changes nothing else: not the listening state, not the restart and
  stop flags, and it makes no request to the recognizer and no call of the callback.
\<close>

theorem resetTranscript_frame:
  "transcript (resetTranscript s) = []
   \<and> interimTranscript (resetTranscript s) = []
   \<and> error (resetTranscript s) = None
   \<and> isListening (resetTranscript s) = isListening s
   \<and> shouldRestartRef (resetTranscript s) = shouldRestartRef s
   \<and> isStoppingRef (resetTranscript s) = isStoppingRef s
   \<and> isSupported (resetTranscript s) = isSupported s
   \<and> onResultProvided (resetTranscript s) = onResultProvided s
   \<and> startRequests (resetTranscript s) = startRequests s
   \<and> stopRequests (resetTranscript s) = stopRequests s
   \<and> onResultCalls (resetTranscript s) = onResultCalls s"
  by (simp add: resetTranscript_def)

end
